theory Spec2Isabelle
  imports Complex_Main
begin

section \<open>Python values, errors and the random source\<close>

text \<open>
  The script \<^verbatim>\<open>streamlit-simulation.py\<close> computes with Python integers (the tallies)
  and with the quotients of such integers. Integers are modelled as \<^typ>\<open>int\<close>; the
  quotients, which the specification calls real numbers, as \<^typ>\<open>real\<close>: the exact
  quotient, where Python holds the float nearest to it (\<open>binary64\<close> below). Every
  exception the arithmetic or a dictionary access can raise is a value of
  \<open>py_error\<close>, and a computation that may raise returns \<open>py_error + 'a\<close>.
\<close>

datatype py_error = ZeroDivisionError | KeyError

text \<open>Python's \<^verbatim>\<open>a / b\<close> on two integers: true division, raising on a zero divisor.\<close>

definition true_div :: "int \<Rightarrow> int \<Rightarrow> py_error + real" where
  "true_div a b = (if b = 0 then Inl ZeroDivisionError else Inr (real_of_int a / real_of_int b))"

text \<open>
  The generator behind \<^verbatim>\<open>np.random\<close> is a source of fair bits together with the
  position of the next unread bit. \<^verbatim>\<open>np.random.choice([a, b])\<close> reads one bit and
  returns the first option on \<open>False\<close> and the second on \<open>True\<close>; all calls in
  the script pass exactly two options.
\<close>

record rng =
  bits :: "nat \<Rightarrow> bool"
  pos :: nat

definition random_choice :: "'a \<Rightarrow> 'a \<Rightarrow> rng \<Rightarrow> 'a \<times> rng" where
  "random_choice a b g = (if bits g (pos g) then b else a, g\<lparr>pos := Suc (pos g)\<rparr>)"

section \<open>The sampler: \<^verbatim>\<open>generate_sample\<close>\<close>

type_synonym trial = "string \<times> string"

text \<open>
  Lines 10 to 14: the loop \<^verbatim>\<open>for _ in range(54)\<close> draws \<^verbatim>\<open>sex\<close>, then \<^verbatim>\<open>arm\<close>,
  and appends the pair. The first argument counts the iterations still to run.
\<close>

fun draw_samples :: "nat \<Rightarrow> trial list \<Rightarrow> rng \<Rightarrow> trial list \<times> rng" where
  "draw_samples 0 samples g = (samples, g)"
| "draw_samples (Suc n) samples g =
     (case random_choice ''M'' ''F'' g of (sex, g1) \<Rightarrow>
      case random_choice ''Sx'' ''Dx'' g1 of (arm, g2) \<Rightarrow>
        draw_samples n (samples @ [(sex, arm)]) g2)"

text \<open>Lines 17 to 20: the dictionary literal with the four tallies at zero.\<close>

definition initial_counts :: "string \<rightharpoonup> int" where
  "initial_counts = [''M_Sx'' \<mapsto> 0, ''M_Dx'' \<mapsto> 0, ''F_Sx'' \<mapsto> 0, ''F_Dx'' \<mapsto> 0]"

text \<open>The key \<^verbatim>\<open>f'{sex}_{arm}'\<close> of line 23.\<close>

definition count_key :: "string \<Rightarrow> string \<Rightarrow> string" where
  "count_key sex arm = sex @ ''_'' @ arm"

text \<open>
  Lines 22 and 23: \<^verbatim>\<open>counts[key] += 1\<close> reads the entry, which raises
  \<^verbatim>\<open>KeyError\<close> on a missing key, and stores the incremented value.
\<close>

fun count_frequencies :: "trial list \<Rightarrow> (string \<rightharpoonup> int) \<Rightarrow> py_error + (string \<rightharpoonup> int)" where
  "count_frequencies [] counts = Inr counts"
| "count_frequencies ((sex, arm) # rest) counts =
     (case counts (count_key sex arm) of
        None \<Rightarrow> Inl KeyError
      | Some c \<Rightarrow> count_frequencies rest (counts(count_key sex arm \<mapsto> c + 1)))"

text \<open>A subscript read \<^verbatim>\<open>counts[k]\<close>.\<close>

definition lookup :: "(string \<rightharpoonup> int) \<Rightarrow> string \<Rightarrow> py_error + int" where
  "lookup counts k = (case counts k of None \<Rightarrow> Inl KeyError | Some c \<Rightarrow> Inr c)"

text \<open>
  One proportion of lines 26 and 27:
  \<^verbatim>\<open>counts[dx] / (counts[dx] + counts[sx])\<close>, evaluated left to right.
\<close>

definition proportion :: "(string \<rightharpoonup> int) \<Rightarrow> string \<Rightarrow> string \<Rightarrow> py_error + real" where
  "proportion counts dx sx =
     (case lookup counts dx of
        Inl e \<Rightarrow> Inl e
      | Inr num \<Rightarrow>
        (case lookup counts dx of
           Inl e \<Rightarrow> Inl e
         | Inr a \<Rightarrow>
           (case lookup counts sx of
              Inl e \<Rightarrow> Inl e
            | Inr b \<Rightarrow> true_div num (a + b))))"

text \<open>Lines 26 to 29: \<^verbatim>\<open>male_dx\<close> first, then \<^verbatim>\<open>female_dx\<close>, then their difference.\<close>

definition calculate_proportions :: "(string \<rightharpoonup> int) \<Rightarrow> py_error + real" where
  "calculate_proportions counts =
     (case proportion counts ''M_Dx'' ''M_Sx'' of
        Inl e \<Rightarrow> Inl e
      | Inr male_dx \<Rightarrow>
        (case proportion counts ''F_Dx'' ''F_Sx'' of
           Inl e \<Rightarrow> Inl e
         | Inr female_dx \<Rightarrow> Inr (female_dx - male_dx)))"

text \<open>
  The whole function. The generator is advanced by the draws whether or not the
  arithmetic raises afterwards, so the generator is returned beside the result.
\<close>

definition generate_sample :: "rng \<Rightarrow> (py_error + real) \<times> rng" where
  "generate_sample g =
     (case draw_samples 54 [] g of (samples, g') \<Rightarrow>
        (case count_frequencies samples initial_counts of
           Inl e \<Rightarrow> (Inl e, g')
         | Inr counts \<Rightarrow> (calculate_proportions counts, g')))"

text \<open>
  Vocabulary of the specification, independent of the code: the batch as a function of
  the bits read, and the number of trials of a batch with a given pair of attributes.
\<close>

definition trial_at :: "rng \<Rightarrow> nat \<Rightarrow> trial" where
  "trial_at g k =
     (if bits g (pos g + 2 * k) then ''F'' else ''M'',
      if bits g (pos g + 2 * k + 1) then ''Dx'' else ''Sx'')"

definition sample_batch :: "rng \<Rightarrow> trial list" where
  "sample_batch g = fst (draw_samples 54 [] g)"

definition tally :: "string \<Rightarrow> string \<Rightarrow> trial list \<Rightarrow> int" where
  "tally sex arm batch = int (length (filter (\<lambda>t. t = (sex, arm)) batch))"

definition group_size :: "string \<Rightarrow> trial list \<Rightarrow> int" where
  "group_size sex batch = int (length (filter (\<lambda>t. fst t = sex) batch))"

definition valid_trial :: "trial \<Rightarrow> bool" where
  "valid_trial t = ((fst t = ''M'' \<or> fst t = ''F'') \<and> (snd t = ''Sx'' \<or> snd t = ''Dx''))"

text \<open>
  The conditional proportion of the value \<^verbatim>\<open>Dx\<close> within one group, in the
  specification's words: the count of the group's \<^verbatim>\<open>Dx\<close> trials over the count of all
  trials of the group.
\<close>

definition conditional_proportion :: "string \<Rightarrow> trial list \<Rightarrow> real" where
  "conditional_proportion sex batch =
     real_of_int (tally sex ''Dx'' batch) /
     real_of_int (tally sex ''Dx'' batch + tally sex ''Sx'' batch)"

text \<open>
  A family of generator states for concrete runs. The next batch drawn from
  \<open>block_rng a b c\<close> consists of \<open>a\<close> trials \<^verbatim>\<open>('F', 'Dx')\<close>, then \<open>b\<close> trials
  \<^verbatim>\<open>('F', 'Sx')\<close>, then \<open>c\<close> trials \<^verbatim>\<open>('M', 'Dx')\<close>, and \<^verbatim>\<open>('M', 'Sx')\<close> for
  the rest.
\<close>

definition block_rng :: "nat \<Rightarrow> nat \<Rightarrow> nat \<Rightarrow> rng" where
  "block_rng a b c =
     \<lparr>bits = (\<lambda>i. if even i then i div 2 < a + b
                   else i div 2 < a \<or> (a + b \<le> i div 2 \<and> i div 2 < a + b + c)),
      pos = 0\<rparr>"

section \<open>The p-value estimator (line 140)\<close>

text \<open>
  \<^verbatim>\<open>sum\<close> over a generator of booleans: the running total starts at 0 and every
  \<^verbatim>\<open>True\<close> adds 1, every \<^verbatim>\<open>False\<close> adds 0.
\<close>

definition py_sum :: "bool list \<Rightarrow> int" where
  "py_sum bs = foldl (\<lambda>total b. total + (if b then 1 else 0)) 0 bs"

text \<open>
  \<^verbatim>\<open>sum(abs(d) >= abs(observed_diff) for d in differences) / current_samples\<close>,
  where \<^verbatim>\<open>current_samples\<close> is \<^verbatim>\<open>len(differences)\<close> (line 131).
\<close>

definition p_value_estimate :: "real list \<Rightarrow> real \<Rightarrow> py_error + real" where
  "p_value_estimate differences observed_diff =
     true_div (py_sum (map (\<lambda>d. \<bar>d\<bar> \<ge> \<bar>observed_diff\<bar>) differences))
              (int (length differences))"

text \<open>The specification's words for the same quantity, used to state the contract.\<close>

definition extreme_count :: "real list \<Rightarrow> real \<Rightarrow> nat" where
  "extreme_count values observed = length (filter (\<lambda>v. \<bar>v\<bar> \<ge> \<bar>observed\<bar>) values)"

section \<open>Floats and the format \<^verbatim>\<open>:.4f\<close> (lines 140 and 141)\<close>

text \<open>
  Python's \<^verbatim>\<open>int / int\<close> returns the binary64 float nearest to the exact quotient, a
  tie going to the even significand. \<open>binary64 x\<close> is that float, as a real number, for
  the magnitudes of the normal range of the format: with \<open>2 ^ e \<le> \<bar>x\<bar> < 2 ^ (e + 1)\<close>
  the value is rounded to a multiple of \<open>2 ^ (e - 52)\<close>. \<open>bit_length\<close> finds \<open>e\<close>.

  A bound, a comparison with the observed value and the value 1 of a quotient \<open>n / n\<close>
  are the same for the exact quotient and for its float, and they are stated for the
  exact quotient. The text of a float is not the same, so the display formats the float.

  The format \<^verbatim>\<open>:.4f\<close> rounds the exact value of the float to the nearest multiple of
  \<open>1/10000\<close>, a tie going to the even multiple, and prints the sign, the integer part, a
  point and four digits. \<open>format_4f x\<close> is the text of the float whose value is \<open>x\<close>.
\<close>

definition digit_char :: "nat \<Rightarrow> char" where
  "digit_char d = ''0123456789'' ! d"

fun decimal :: "nat \<Rightarrow> string" where
  "decimal n = (if n < 10 then [digit_char n] else decimal (n div 10) @ [digit_char (n mod 10)])"

definition round_half_even :: "real \<Rightarrow> int" where
  "round_half_even x =
     (let f = \<lfloor>x\<rfloor>; r = x - of_int f
      in if r < 1 / 2 then f
         else if 1 / 2 < r then f + 1
         else if even f then f else f + 1)"

fun bit_length :: "nat \<Rightarrow> nat" where
  "bit_length n = (if n = 0 then 0 else Suc (bit_length (n div 2)))"

definition binary64 :: "real \<Rightarrow> real" where
  "binary64 x =
     (let a = \<bar>x\<bar>
      in if a = 0 then 0
         else if 1 \<le> a then
           (let e = bit_length (nat \<lfloor>a\<rfloor>) - 1
            in if e \<le> 52
               then sgn x * real_of_int (round_half_even (a * 2 ^ (52 - e))) / 2 ^ (52 - e)
               else sgn x * real_of_int (round_half_even (a / 2 ^ (e - 52))) * 2 ^ (e - 52))
         else
           (let j = bit_length (nat \<lfloor>1 / a\<rfloor>) - 1;
                s = 52 + (if a * 2 ^ j = 1 then j else j + 1)
            in sgn x * real_of_int (round_half_even (a * 2 ^ s)) / 2 ^ s))"

definition format_4f :: "real \<Rightarrow> string" where
  "format_4f x =
     (let n = nat (round_half_even (\<bar>x\<bar> * 10000))
      in (if x < 0 then ''-'' else []) @ decimal (n div 10000) @ ''.'' @
         [digit_char (n div 1000 mod 10), digit_char (n div 100 mod 10),
          digit_char (n div 10 mod 10), digit_char (n mod 10)])"

section \<open>The script run: \<^verbatim>\<open>main\<close>\<close>

text \<open>
  \<^verbatim>\<open>st.session_state\<close> outlives a script run. Each of its two entries is absent in a
  new session, and lines 100 to 103 install the defaults of the absent ones.
\<close>

record session_store =
  stored_differences :: "real list option"
  stored_running :: "bool option"

definition empty_store :: session_store where
  "empty_store = \<lparr>stored_differences = None, stored_running = None\<rparr>"

record session_state =
  differences :: "real list"
  running :: bool

definition init_session :: "session_store \<Rightarrow> session_state" where
  "init_session st =
     \<lparr>differences = (case stored_differences st of None \<Rightarrow> [] | Some ds \<Rightarrow> ds),
      running = (case stored_running st of None \<Rightarrow> False | Some r \<Rightarrow> r)\<rparr>"

definition persist :: "session_state \<Rightarrow> session_store" where
  "persist s = \<lparr>stored_differences = Some (differences s), stored_running = Some (running s)\<rparr>"

text \<open>
  What the widgets return in one run: whether each button was clicked, the selected
  target and the checkbox. The select box offers the options of line 123.
\<close>

record widgets =
  start_stop_clicked :: bool
  reset_clicked :: bool
  target_samples :: int
  show_p_value :: bool

definition target_options :: "int list" where
  "target_options = [100, 500, 1000, 5000, 10000]"

definition valid_widgets :: "widgets \<Rightarrow> bool" where
  "valid_widgets w = (target_samples w \<in> set target_options)"

text \<open>
  Lines 108 to 118: the Start/Stop button toggles the flag, then Reset clears the list
  (line 117) and, in a second assignment, the flag (line 118).
\<close>

definition clear_differences :: "session_state \<Rightarrow> session_state" where
  "clear_differences s = s\<lparr>differences := []\<rparr>"

definition clear_running :: "session_state \<Rightarrow> session_state" where
  "clear_running s = s\<lparr>running := False\<rparr>"

definition reset :: "session_state \<Rightarrow> session_state" where
  "reset s = clear_running (clear_differences s)"

definition handle_controls :: "session_state \<Rightarrow> widgets \<Rightarrow> session_state" where
  "handle_controls s w =
     (let s1 = (if start_stop_clicked w then s\<lparr>running := \<not> running s\<rparr> else s)
      in if reset_clicked w then reset s1 else s1)"

text \<open>
  Lines 131 to 149: what the run displays. The progress value, the two numbers of the
  "Samples" metric, the text of the "P-value" metric when it is shown, and the arguments
  handed to the chart.
\<close>

record page =
  progress :: real
  samples_metric :: "int \<times> int"
  p_value_metric :: "string option"
  chart_values :: "real list"
  chart_observed :: real
  chart_shaded :: bool

definition progress_value :: "int \<Rightarrow> int \<Rightarrow> py_error + real" where
  "progress_value current_samples target =
     (case true_div current_samples target of
        Inl e \<Rightarrow> Inl e
      | Inr fraction \<Rightarrow> Inr (min 1 fraction))"

text \<open>
  Lines 138 to 141. \<^verbatim>\<open>p_value\<close> holds the float of the quotient, and the metric shows
  that float under \<^verbatim>\<open>:.4f\<close>.
\<close>

definition p_value_display :: "real list \<Rightarrow> py_error + string option" where
  "p_value_display ds =
     (let current_samples = int (length ds)
      in if current_samples > 0 then
           (case p_value_estimate ds (6 / 100) of
              Inl e \<Rightarrow> Inl e
            | Inr p_value \<Rightarrow> Inr (Some (format_4f (binary64 p_value))))
         else Inr None)"

definition render_status :: "session_state \<Rightarrow> widgets \<Rightarrow> py_error + page" where
  "render_status s w =
     (let current_samples = int (length (differences s))
      in case progress_value current_samples (target_samples w) of
           Inl e \<Rightarrow> Inl e
         | Inr p \<Rightarrow>
           (case p_value_display (differences s) of
              Inl e \<Rightarrow> Inl e
            | Inr m \<Rightarrow>
              Inr \<lparr>progress = p,
                   samples_metric = (current_samples, target_samples w),
                   p_value_metric = m,
                   chart_values = differences s,
                   chart_observed = 6 / 100,
                   chart_shaded = show_p_value w\<rparr>))"

text \<open>
  The result of one run: the session store it leaves, the generator, the page when the
  status was rendered, the exception when the run stopped with one, and whether the run
  asked for an immediate rerun (line 154).
\<close>

record run =
  store :: session_store
  generator :: rng
  shown :: "page option"
  raised :: "py_error option"
  rerun :: bool

text \<open>
  Lines 152 to 154. Assignments to the session store made before an exception stay in
  the store.
\<close>

definition auto_update :: "session_state \<Rightarrow> widgets \<Rightarrow> page \<Rightarrow> rng \<Rightarrow> run" where
  "auto_update s w pg g =
     (if running s \<and> int (length (differences s)) < target_samples w then
        (case generate_sample g of
           (Inl e, g') \<Rightarrow>
             \<lparr>store = persist s, generator = g', shown = Some pg, raised = Some e, rerun = False\<rparr>
         | (Inr v, g') \<Rightarrow>
             \<lparr>store = persist (s\<lparr>differences := differences s @ [v]\<rparr>), generator = g',
              shown = Some pg, raised = None, rerun = True\<rparr>)
      else \<lparr>store = persist s, generator = g, shown = Some pg, raised = None, rerun = False\<rparr>)"

definition main :: "session_store \<Rightarrow> widgets \<Rightarrow> rng \<Rightarrow> run" where
  "main st w g =
     (let s = handle_controls (init_session st) w
      in case render_status s w of
           Inl e \<Rightarrow> \<lparr>store = persist s, generator = g, shown = None, raised = Some e, rerun = False\<rparr>
         | Inr pg \<Rightarrow> auto_update s w pg g)"

text \<open>
  A session is a sequence of runs, each with the widget values of that run and the
  generator as it stands then. The count of a store is the length of its list, and 0
  while the list is absent.
\<close>

fun run_ticks :: "session_store \<Rightarrow> (widgets \<times> rng) list \<Rightarrow> session_store" where
  "run_ticks st [] = st"
| "run_ticks st ((w, g) # ticks) = run_ticks (store (main st w g)) ticks"

definition current_count :: "session_store \<Rightarrow> nat" where
  "current_count st = length (differences (init_session st))"

section \<open>The events of a run\<close>





text \<open>The two assignments of lines 101 and 103, each made only for an absent entry.\<close>

definition init_differences :: "session_store \<Rightarrow> session_store" where
  "init_differences st =
     (if stored_differences st = None then st\<lparr>stored_differences := Some []\<rparr> else st)"

definition init_running :: "session_store \<Rightarrow> session_store" where
  "init_running st =
     (if stored_running st = None then st\<lparr>stored_running := Some False\<rparr> else st)"








text \<open>
  Concrete inputs for the runs evaluated below. Of the 160 values of \<open>tie_values\<close>, 107
  are at least as extreme as 0.06.
\<close>

definition example_values :: "real list" where
  "example_values = [3 / 10, - 1 / 20, 0, - 1 / 2]"

definition tie_values :: "real list" where
  "tie_values = replicate 107 (1 / 2) @ replicate 53 0"


definition click :: "bool \<Rightarrow> bool \<Rightarrow> int \<Rightarrow> widgets" where
  "click start_stop rst target =
     \<lparr>start_stop_clicked = start_stop, reset_clicked = rst, target_samples = target,
      show_p_value = True\<rparr>"

section \<open>Properties of the sampler\<close>

text \<open>The batch is a function of the next 108 bits of the generator.\<close>

lemma draw_samples_eq:
  "draw_samples n samples g =
     (samples @ map (trial_at g) [0..<n], g\<lparr>pos := pos g + 2 * n\<rparr>)"
proof (induction n arbitrary: samples g)
  case 0
  show ?case by simp
next
  case (Suc n)
  have step: "draw_samples (Suc n) samples g =
      draw_samples n (samples @ [trial_at g 0]) (g\<lparr>pos := Suc (Suc (pos g))\<rparr>)"
    by (simp add: random_choice_def trial_at_def)
  have shift: "map (trial_at (g\<lparr>pos := Suc (Suc (pos g))\<rparr>)) [0..<n] = map (trial_at g) [Suc 0..<Suc n]"
    unfolding map_Suc_upt [symmetric] by (simp add: trial_at_def)
  have split: "[0..<Suc n] = 0 # [Suc 0..<Suc n]"
    by (simp add: upt_rec)
  show ?case
    unfolding step Suc.IH shift split by simp
qed

lemma sample_batch_eq: "sample_batch g = map (trial_at g) [0..<54]"
  by (simp add: sample_batch_def draw_samples_eq)

lemma valid_trial_at: "valid_trial (trial_at g k)"
  by (simp add: valid_trial_def trial_at_def)

lemma valid_sample_batch: "t \<in> set (sample_batch g) \<Longrightarrow> valid_trial t"
  by (auto simp: sample_batch_eq valid_trial_at)

lemma count_key_simps:
  "count_key ''M'' ''Sx'' = ''M_Sx''" "count_key ''M'' ''Dx'' = ''M_Dx''"
  "count_key ''F'' ''Sx'' = ''F_Sx''" "count_key ''F'' ''Dx'' = ''F_Dx''"
  by (simp_all add: count_key_def)

lemma tally_Nil: "tally sex arm [] = 0"
  by (simp add: tally_def)

lemma tally_Cons: "tally sex arm (t # ts) = (if t = (sex, arm) then 1 else 0) + tally sex arm ts"
  by (simp add: tally_def)

lemma count_frequencies_tally:
  assumes "\<forall>t\<in>set ts. valid_trial t"
    and "counts ''M_Sx'' = Some a" and "counts ''M_Dx'' = Some b"
    and "counts ''F_Sx'' = Some c" and "counts ''F_Dx'' = Some d"
  shows "\<exists>counts'. count_frequencies ts counts = Inr counts' \<and>
           counts' ''M_Sx'' = Some (a + tally ''M'' ''Sx'' ts) \<and>
           counts' ''M_Dx'' = Some (b + tally ''M'' ''Dx'' ts) \<and>
           counts' ''F_Sx'' = Some (c + tally ''F'' ''Sx'' ts) \<and>
           counts' ''F_Dx'' = Some (d + tally ''F'' ''Dx'' ts)"
  using assms
proof (induction ts arbitrary: counts a b c d)
  case Nil
  then show ?case by (simp add: tally_Nil)
next
  case (Cons t ts)
  obtain sex arm where t: "t = (sex, arm)" by (cases t)
  from Cons.prems(1) have rest: "\<forall>t\<in>set ts. valid_trial t" by simp
  from Cons.prems(1) t have "(sex = ''M'' \<or> sex = ''F'') \<and> (arm = ''Sx'' \<or> arm = ''Dx'')"
    by (simp add: valid_trial_def)
  then consider (ms) "sex = ''M''" "arm = ''Sx''" | (md) "sex = ''M''" "arm = ''Dx''"
    | (fs) "sex = ''F''" "arm = ''Sx''" | (fd) "sex = ''F''" "arm = ''Dx''"
    by blast
  then show ?case
  proof cases
    case ms
    have "\<exists>counts'. count_frequencies ts (counts(''M_Sx'' \<mapsto> a + 1)) = Inr counts' \<and>
           counts' ''M_Sx'' = Some (a + 1 + tally ''M'' ''Sx'' ts) \<and>
           counts' ''M_Dx'' = Some (b + tally ''M'' ''Dx'' ts) \<and>
           counts' ''F_Sx'' = Some (c + tally ''F'' ''Sx'' ts) \<and>
           counts' ''F_Dx'' = Some (d + tally ''F'' ''Dx'' ts)"
      by (rule Cons.IH [OF rest]) (simp_all add: Cons.prems)
    then show ?thesis
      by (simp add: t ms count_key_simps Cons.prems tally_Cons add.assoc)
  next
    case md
    have "\<exists>counts'. count_frequencies ts (counts(''M_Dx'' \<mapsto> b + 1)) = Inr counts' \<and>
           counts' ''M_Sx'' = Some (a + tally ''M'' ''Sx'' ts) \<and>
           counts' ''M_Dx'' = Some (b + 1 + tally ''M'' ''Dx'' ts) \<and>
           counts' ''F_Sx'' = Some (c + tally ''F'' ''Sx'' ts) \<and>
           counts' ''F_Dx'' = Some (d + tally ''F'' ''Dx'' ts)"
      by (rule Cons.IH [OF rest]) (simp_all add: Cons.prems)
    then show ?thesis
      by (simp add: t md count_key_simps Cons.prems tally_Cons add.assoc)
  next
    case fs
    have "\<exists>counts'. count_frequencies ts (counts(''F_Sx'' \<mapsto> c + 1)) = Inr counts' \<and>
           counts' ''M_Sx'' = Some (a + tally ''M'' ''Sx'' ts) \<and>
           counts' ''M_Dx'' = Some (b + tally ''M'' ''Dx'' ts) \<and>
           counts' ''F_Sx'' = Some (c + 1 + tally ''F'' ''Sx'' ts) \<and>
           counts' ''F_Dx'' = Some (d + tally ''F'' ''Dx'' ts)"
      by (rule Cons.IH [OF rest]) (simp_all add: Cons.prems)
    then show ?thesis
      by (simp add: t fs count_key_simps Cons.prems tally_Cons add.assoc)
  next
    case fd
    have "\<exists>counts'. count_frequencies ts (counts(''F_Dx'' \<mapsto> d + 1)) = Inr counts' \<and>
           counts' ''M_Sx'' = Some (a + tally ''M'' ''Sx'' ts) \<and>
           counts' ''M_Dx'' = Some (b + tally ''M'' ''Dx'' ts) \<and>
           counts' ''F_Sx'' = Some (c + tally ''F'' ''Sx'' ts) \<and>
           counts' ''F_Dx'' = Some (d + 1 + tally ''F'' ''Dx'' ts)"
      by (rule Cons.IH [OF rest]) (simp_all add: Cons.prems)
    then show ?thesis
      by (simp add: t fd count_key_simps Cons.prems tally_Cons add.assoc)
  qed
qed

lemma group_size_tally:
  assumes "\<forall>t\<in>set ts. valid_trial t"
  shows "group_size sex ts = tally sex ''Dx'' ts + tally sex ''Sx'' ts"
  using assms
  by (induction ts) (auto simp: group_size_def tally_def valid_trial_def)

lemma initial_counts_simps:
  "initial_counts ''M_Sx'' = Some 0" "initial_counts ''M_Dx'' = Some 0"
  "initial_counts ''F_Sx'' = Some 0" "initial_counts ''F_Dx'' = Some 0"
  by (simp_all add: initial_counts_def)

lemma count_frequencies_batch:
  "\<exists>counts. count_frequencies (sample_batch g) initial_counts = Inr counts \<and>
     counts ''M_Sx'' = Some (tally ''M'' ''Sx'' (sample_batch g)) \<and>
     counts ''M_Dx'' = Some (tally ''M'' ''Dx'' (sample_batch g)) \<and>
     counts ''F_Sx'' = Some (tally ''F'' ''Sx'' (sample_batch g)) \<and>
     counts ''F_Dx'' = Some (tally ''F'' ''Dx'' (sample_batch g))"
proof -
  have valid: "\<forall>t\<in>set (sample_batch g). valid_trial t"
    by (simp add: valid_sample_batch)
  show ?thesis
    using count_frequencies_tally [OF valid initial_counts_simps] by simp
qed

lemma calculate_proportions_eq:
  assumes "counts ''M_Sx'' = Some ms" and "counts ''M_Dx'' = Some md"
    and "counts ''F_Sx'' = Some fs" and "counts ''F_Dx'' = Some fd"
  shows "calculate_proportions counts =
     (if md + ms = 0 \<or> fd + fs = 0 then Inl ZeroDivisionError
      else Inr (real_of_int fd / real_of_int (fd + fs) - real_of_int md / real_of_int (md + ms)))"
  by (simp add: calculate_proportions_def proportion_def lookup_def true_div_def assms)

lemma generate_sample_eq:
  "generate_sample g =
     (if tally ''M'' ''Dx'' (sample_batch g) + tally ''M'' ''Sx'' (sample_batch g) = 0 \<or>
         tally ''F'' ''Dx'' (sample_batch g) + tally ''F'' ''Sx'' (sample_batch g) = 0
      then Inl ZeroDivisionError
      else Inr (real_of_int (tally ''F'' ''Dx'' (sample_batch g)) /
                  real_of_int (tally ''F'' ''Dx'' (sample_batch g) + tally ''F'' ''Sx'' (sample_batch g)) -
                real_of_int (tally ''M'' ''Dx'' (sample_batch g)) /
                  real_of_int (tally ''M'' ''Dx'' (sample_batch g) + tally ''M'' ''Sx'' (sample_batch g))),
      g\<lparr>pos := pos g + 108\<rparr>)"
proof -
  obtain counts where run: "count_frequencies (sample_batch g) initial_counts = Inr counts"
    and c: "counts ''M_Sx'' = Some (tally ''M'' ''Sx'' (sample_batch g))"
      "counts ''M_Dx'' = Some (tally ''M'' ''Dx'' (sample_batch g))"
      "counts ''F_Sx'' = Some (tally ''F'' ''Sx'' (sample_batch g))"
      "counts ''F_Dx'' = Some (tally ''F'' ''Dx'' (sample_batch g))"
    using count_frequencies_batch [of g] by blast
  have drawn: "draw_samples 54 [] g = (sample_batch g, g\<lparr>pos := pos g + 108\<rparr>)"
    by (simp add: sample_batch_def draw_samples_eq)
  show ?thesis
    unfolding generate_sample_def drawn
    by (simp add: run calculate_proportions_eq [OF c])
qed

lemma trial_at_block:
  "trial_at (block_rng a b c) k =
     (if k < a then (''F'', ''Dx'') else if k < a + b then (''F'', ''Sx'')
      else if k < a + b + c then (''M'', ''Dx'') else (''M'', ''Sx''))"
  by (simp add: trial_at_def block_rng_def)

lemma sample_batch_block:
  assumes "a + b + c \<le> 54"
  shows "sample_batch (block_rng a b c) =
           replicate a (''F'', ''Dx'') @ replicate b (''F'', ''Sx'') @
           replicate c (''M'', ''Dx'') @ replicate (54 - (a + b + c)) (''M'', ''Sx'')"
proof (rule nth_equalityI)
  show "length (sample_batch (block_rng a b c)) =
          length (replicate a (''F'', ''Dx'') @ replicate b (''F'', ''Sx'') @
           replicate c (''M'', ''Dx'') @ replicate (54 - (a + b + c)) (''M'', ''Sx''))"
    using assms by (simp add: sample_batch_eq)
next
  fix i
  assume "i < length (sample_batch (block_rng a b c))"
  then have i: "i < 54" by (simp add: sample_batch_eq)
  then have "sample_batch (block_rng a b c) ! i = trial_at (block_rng a b c) i"
    by (simp add: sample_batch_eq)
  also have "\<dots> = (replicate a (''F'', ''Dx'') @ replicate b (''F'', ''Sx'') @
           replicate c (''M'', ''Dx'') @ replicate (54 - (a + b + c)) (''M'', ''Sx'')) ! i"
    using i assms by (auto simp: trial_at_block nth_append)
  finally show "sample_batch (block_rng a b c) ! i =
      (replicate a (''F'', ''Dx'') @ replicate b (''F'', ''Sx'') @
           replicate c (''M'', ''Dx'') @ replicate (54 - (a + b + c)) (''M'', ''Sx'')) ! i" .
qed

lemma tally_append: "tally sex arm (xs @ ys) = tally sex arm xs + tally sex arm ys"
  by (simp add: tally_def)

lemma tally_replicate: "tally sex arm (replicate n t) = (if t = (sex, arm) then int n else 0)"
  by (simp add: tally_def)

lemma tally_nonneg: "0 \<le> tally sex arm batch"
  by (simp add: tally_def)

lemma group_size_batch:
  "group_size sex (sample_batch g) =
     tally sex ''Dx'' (sample_batch g) + tally sex ''Sx'' (sample_batch g)"
  by (rule group_size_tally) (simp add: valid_sample_batch)

lemma generate_sample_result:
  "fst (generate_sample g) =
     (if group_size ''M'' (sample_batch g) = 0 \<or> group_size ''F'' (sample_batch g) = 0
      then Inl ZeroDivisionError
      else Inr (conditional_proportion ''F'' (sample_batch g) -
                conditional_proportion ''M'' (sample_batch g)))"
  by (simp add: generate_sample_eq group_size_batch conditional_proportion_def)

lemma generate_sample_generator: "snd (generate_sample g) = g\<lparr>pos := pos g + 108\<rparr>"
  by (simp add: generate_sample_eq)

lemma conditional_proportion_bounds:
  assumes "group_size sex (sample_batch g) \<noteq> 0"
  shows "0 \<le> conditional_proportion sex (sample_batch g)"
    and "conditional_proportion sex (sample_batch g) \<le> 1"
proof -
  let ?a = "tally sex ''Dx'' (sample_batch g)" and ?b = "tally sex ''Sx'' (sample_batch g)"
  have a: "0 \<le> ?a" and b: "0 \<le> ?b" by (rule tally_nonneg)+
  from assms have "?a + ?b \<noteq> 0" by (simp add: group_size_batch)
  with a b have pos: "0 < real_of_int (?a + ?b)" by simp
  show "0 \<le> conditional_proportion sex (sample_batch g)"
    unfolding conditional_proportion_def using a pos by simp
  have "real_of_int ?a \<le> real_of_int (?a + ?b)" using b by simp
  then show "conditional_proportion sex (sample_batch g) \<le> 1"
    unfolding conditional_proportion_def using pos by (simp add: divide_le_eq)
qed

text \<open>
  Claim C1. \<^verbatim>\<open>generate_sample\<close> draws a batch of exactly 54 trials. Trial \<open>k\<close>
  takes its group from one fair bit of the generator and its value from the next one, so
  no two attributes of the batch share a bit; the run reads 108 bits in all. The loop over
  the batch leaves the four tallies in the dictionary, and when both groups are non-empty
  the result is the proportion of \<^verbatim>\<open>Dx\<close> among the \<^verbatim>\<open>F\<close> trials minus the proportion
  of \<^verbatim>\<open>Dx\<close> among the \<^verbatim>\<open>M\<close> trials (\<^verbatim>\<open>female_dx - male_dx\<close>).
\<close>

theorem generate_sample_statistic:
  "length (sample_batch g) = 54 \<and>
   (\<forall>k<54. sample_batch g ! k =
      (if bits g (pos g + 2 * k) then ''F'' else ''M'',
       if bits g (pos g + 2 * k + 1) then ''Dx'' else ''Sx'')) \<and>
   snd (generate_sample g) = g\<lparr>pos := pos g + 108\<rparr> \<and>
   (\<exists>counts. count_frequencies (sample_batch g) initial_counts = Inr counts \<and>
      counts ''M_Sx'' = Some (tally ''M'' ''Sx'' (sample_batch g)) \<and>
      counts ''M_Dx'' = Some (tally ''M'' ''Dx'' (sample_batch g)) \<and>
      counts ''F_Sx'' = Some (tally ''F'' ''Sx'' (sample_batch g)) \<and>
      counts ''F_Dx'' = Some (tally ''F'' ''Dx'' (sample_batch g))) \<and>
   (group_size ''M'' (sample_batch g) \<noteq> 0 \<and> group_size ''F'' (sample_batch g) \<noteq> 0 \<longrightarrow>
      fst (generate_sample g) =
        Inr (conditional_proportion ''F'' (sample_batch g) -
             conditional_proportion ''M'' (sample_batch g)))"
proof (intro conjI)
  show "length (sample_batch g) = 54"
    by (simp add: sample_batch_eq)
  show "\<forall>k<54. sample_batch g ! k =
      (if bits g (pos g + 2 * k) then ''F'' else ''M'',
       if bits g (pos g + 2 * k + 1) then ''Dx'' else ''Sx'')"
    by (simp add: sample_batch_eq trial_at_def)
  show "snd (generate_sample g) = g\<lparr>pos := pos g + 108\<rparr>"
    by (rule generate_sample_generator)
  show "\<exists>counts. count_frequencies (sample_batch g) initial_counts = Inr counts \<and>
      counts ''M_Sx'' = Some (tally ''M'' ''Sx'' (sample_batch g)) \<and>
      counts ''M_Dx'' = Some (tally ''M'' ''Dx'' (sample_batch g)) \<and>
      counts ''F_Sx'' = Some (tally ''F'' ''Sx'' (sample_batch g)) \<and>
      counts ''F_Dx'' = Some (tally ''F'' ''Dx'' (sample_batch g))"
    by (rule count_frequencies_batch)
  show "group_size ''M'' (sample_batch g) \<noteq> 0 \<and> group_size ''F'' (sample_batch g) \<noteq> 0 \<longrightarrow>
      fst (generate_sample g) =
        Inr (conditional_proportion ''F'' (sample_batch g) -
             conditional_proportion ''M'' (sample_batch g))"
    by (simp add: generate_sample_result)
qed

lemma group_size_append: "group_size sex (xs @ ys) = group_size sex xs + group_size sex ys"
  by (simp add: group_size_def)

lemma group_size_replicate: "group_size sex (replicate n t) = (if fst t = sex then int n else 0)"
  by (simp add: group_size_def)

lemmas block_eval =
  sample_batch_block tally_append tally_replicate group_size_append group_size_replicate
  conditional_proportion_def

theorem generate_sample_statistic_witness:
  "group_size ''M'' (sample_batch (block_rng 28 22 2)) = 4 \<and>
   group_size ''F'' (sample_batch (block_rng 28 22 2)) = 50 \<and>
   sample_batch (block_rng 28 22 2) ! 27 = (''F'', ''Dx'') \<and>
   sample_batch (block_rng 28 22 2) ! 28 = (''F'', ''Sx'') \<and>
   snd (generate_sample (block_rng 28 22 2)) = block_rng 28 22 2\<lparr>pos := 108\<rparr> \<and>
   fst (generate_sample (block_rng 28 22 2)) = Inr (6 / 100)"
  using generate_sample_statistic [of "block_rng 28 22 2"]
  by (simp add: block_eval) (simp add: block_rng_def)

text \<open>
  Claim C3. When the batch has at least one trial of each group, \<^verbatim>\<open>generate_sample\<close>
  returns a value, and that value lies between \<open>-1\<close> and \<open>1\<close>.
\<close>

theorem statistic_within_bounds:
  assumes "group_size ''M'' (sample_batch g) > 0" and "group_size ''F'' (sample_batch g) > 0"
  shows "\<exists>v. fst (generate_sample g) = Inr v \<and> - 1 \<le> v \<and> v \<le> 1"
proof -
  from assms have m: "group_size ''M'' (sample_batch g) \<noteq> 0"
    and f: "group_size ''F'' (sample_batch g) \<noteq> 0" by simp_all
  note bm = conditional_proportion_bounds [OF m] and bf = conditional_proportion_bounds [OF f]
  have "fst (generate_sample g) =
      Inr (conditional_proportion ''F'' (sample_batch g) -
           conditional_proportion ''M'' (sample_batch g))"
    using m f by (simp add: generate_sample_result)
  moreover have "- 1 \<le> conditional_proportion ''F'' (sample_batch g) -
           conditional_proportion ''M'' (sample_batch g)"
    using bm bf by linarith
  moreover have "conditional_proportion ''F'' (sample_batch g) -
           conditional_proportion ''M'' (sample_batch g) \<le> 1"
    using bm bf by linarith
  ultimately show ?thesis by blast
qed

theorem statistic_within_bounds_witness:
  "group_size ''M'' (sample_batch (block_rng 27 0 0)) > 0 \<and>
   group_size ''F'' (sample_batch (block_rng 27 0 0)) > 0 \<and>
   fst (generate_sample (block_rng 27 0 0)) = Inr 1 \<and>
   (\<exists>v. fst (generate_sample (block_rng 27 0 0)) = Inr v \<and> - 1 \<le> v \<and> v \<le> 1)"
proof -
  have m: "group_size ''M'' (sample_batch (block_rng 27 0 0)) > 0"
    by (simp add: block_eval)
  have f: "group_size ''F'' (sample_batch (block_rng 27 0 0)) > 0"
    by (simp add: block_eval)
  have v: "fst (generate_sample (block_rng 27 0 0)) = Inr 1"
    by (simp add: generate_sample_result block_eval)
  show ?thesis
    using m f v statistic_within_bounds [OF m f] by simp
qed

text \<open>
  Claim C4. \<^verbatim>\<open>generate_sample\<close> raises \<^verbatim>\<open>ZeroDivisionError\<close> exactly when one of
  the two groups of the batch is empty. It raises nothing else, and it has read exactly
  the 108 bits of one batch in either case: a degenerate batch is not drawn again and no
  value is returned for it.
\<close>

theorem generate_sample_division_by_zero:
  "(fst (generate_sample g) = Inl ZeroDivisionError) =
     (group_size ''M'' (sample_batch g) = 0 \<or> group_size ''F'' (sample_batch g) = 0) \<and>
   fst (generate_sample g) \<noteq> Inl KeyError \<and>
   snd (generate_sample g) = g\<lparr>pos := pos g + 108\<rparr>"
  by (simp add: generate_sample_result generate_sample_generator)

theorem generate_sample_division_by_zero_witness:
  "group_size ''F'' (sample_batch (block_rng 0 0 0)) = 0 \<and>
   fst (generate_sample (block_rng 0 0 0)) = Inl ZeroDivisionError \<and>
   group_size ''M'' (sample_batch (block_rng 54 0 0)) = 0 \<and>
   fst (generate_sample (block_rng 54 0 0)) = Inl ZeroDivisionError \<and>
   fst (generate_sample (block_rng 28 22 2)) \<noteq> Inl ZeroDivisionError"
  using generate_sample_division_by_zero [of "block_rng 0 0 0"]
    generate_sample_division_by_zero [of "block_rng 54 0 0"]
    generate_sample_division_by_zero [of "block_rng 28 22 2"]
  by (simp add: block_eval)

lemma generate_sample_block_example: "fst (generate_sample (block_rng 28 22 2)) = Inr (6 / 100)"
  by (simp add: generate_sample_result block_eval)

section \<open>Properties of the estimator\<close>

text \<open>The fold of \<^verbatim>\<open>sum\<close> counts the values that are at least as extreme.\<close>

lemma foldl_count:
  "foldl (\<lambda>total b. total + (if b then 1 else 0)) acc bs = acc + int (length (filter id bs))"
  by (induction bs arbitrary: acc) simp_all

lemma py_sum_eq: "py_sum bs = int (length (filter id bs))"
  by (simp add: py_sum_def foldl_count)

lemma py_sum_extreme: "py_sum (map (\<lambda>d. \<bar>d\<bar> \<ge> \<bar>observed\<bar>) ds) = int (extreme_count ds observed)"
  by (simp add: py_sum_eq extreme_count_def filter_map comp_def)

lemma p_value_estimate_eq:
  "p_value_estimate ds observed =
     (if ds = [] then Inl ZeroDivisionError
      else Inr (real (extreme_count ds observed) / real (length ds)))"
  by (simp add: p_value_estimate_def py_sum_extreme true_div_def)

lemma extreme_count_le: "extreme_count ds observed \<le> length ds"
  by (simp add: extreme_count_def)

lemma extreme_count_antimono:
  assumes "\<bar>o1\<bar> \<le> \<bar>o2\<bar>"
  shows "extreme_count ds o2 \<le> extreme_count ds o1"
  using assms
  by (induction ds) (auto simp: extreme_count_def)

lemma extreme_count_zero: "extreme_count ds 0 = length ds"
  by (simp add: extreme_count_def)

text \<open>
  Claim C2. On a non-empty sequence the estimator returns the number of values \<open>v\<close>
  with \<open>\<bar>v\<bar> \<ge> \<bar>observed\<bar>\<close> divided by the number of values, and that quotient lies
  between 0 and 1.
\<close>

theorem p_value_estimate_contract:
  assumes "values \<noteq> []"
  shows "p_value_estimate values observed =
           Inr (real (extreme_count values observed) / real (length values)) \<and>
         0 \<le> real (extreme_count values observed) / real (length values) \<and>
         real (extreme_count values observed) / real (length values) \<le> 1"
proof -
  have "real (extreme_count values observed) \<le> real (length values)"
    using extreme_count_le [of "values" observed] by simp
  moreover have "0 < real (length values)" using assms by simp
  ultimately have "real (extreme_count values observed) / real (length values) \<le> 1"
    by (simp add: divide_le_eq)
  then show ?thesis
    using assms by (simp add: p_value_estimate_eq)
qed

theorem p_value_estimate_contract_witness:
  "[3 / 10, - 1 / 20, 0, - 1 / 2] \<noteq> ([] :: real list) \<and>
   p_value_estimate [3 / 10, - 1 / 20, 0, - 1 / 2] (6 / 100) = Inr (1 / 2)"
  using p_value_estimate_contract [of "[3 / 10, - 1 / 20, 0, - 1 / 2]" "6 / 100"]
  by (simp add: extreme_count_def)

text \<open>
  Claim C5. On a fixed non-empty sequence the estimate does not increase when the
  absolute value of the observed statistic grows.
\<close>

theorem p_value_estimate_monotone:
  assumes "values \<noteq> []" and "\<bar>o1\<bar> \<le> \<bar>o2\<bar>"
  shows "\<exists>p1 p2. p_value_estimate values o1 = Inr p1 \<and>
           p_value_estimate values o2 = Inr p2 \<and> p2 \<le> p1"
proof -
  have "real (extreme_count values o2) \<le> real (extreme_count values o1)"
    using extreme_count_antimono [OF assms(2), of "values"] by simp
  then have "real (extreme_count values o2) / real (length values)
      \<le> real (extreme_count values o1) / real (length values)"
    by (rule divide_right_mono) simp
  then show ?thesis
    using assms(1) by (simp add: p_value_estimate_eq)
qed

theorem p_value_estimate_monotone_witness:
  "[3 / 10, - 1 / 20, 0, - 1 / 2] \<noteq> ([] :: real list) \<and> \<bar>6 / 100 :: real\<bar> \<le> \<bar>- 2 / 5\<bar> \<and>
   p_value_estimate [3 / 10, - 1 / 20, 0, - 1 / 2] (6 / 100) = Inr (1 / 2) \<and>
   p_value_estimate [3 / 10, - 1 / 20, 0, - 1 / 2] (- 2 / 5) = Inr (1 / 4)"
  using p_value_estimate_monotone [of "[3 / 10, - 1 / 20, 0, - 1 / 2]" "6 / 100" "- 2 / 5"]
  by (simp add: p_value_estimate_eq extreme_count_def)

text \<open>
  Claim C6. With an observed statistic of 0 the estimate on a non-empty sequence is
  exactly 1.
\<close>

theorem p_value_estimate_zero_observed:
  assumes "values \<noteq> []"
  shows "p_value_estimate values 0 = Inr 1"
  using assms by (simp add: p_value_estimate_eq extreme_count_zero)

theorem p_value_estimate_zero_observed_witness:
  "[3 / 10, - 1 / 20, 0, - 1 / 2] \<noteq> ([] :: real list) \<and>
   p_value_estimate [3 / 10, - 1 / 20, 0, - 1 / 2] 0 = Inr 1"
  using p_value_estimate_zero_observed [of "[3 / 10, - 1 / 20, 0, - 1 / 2]"]
  by simp

section \<open>Properties of the format\<close>

lemma round_half_even_bounds:
  "\<bar>real_of_int (round_half_even x) - x\<bar> \<le> 1 / 2"
  unfolding round_half_even_def Let_def by (auto; linarith)

lemma round_half_even_range:
  assumes "0 \<le> x" and "x \<le> 10000"
  shows "0 \<le> round_half_even x" and "round_half_even x \<le> 10000"
proof -
  have f0: "0 \<le> \<lfloor>x\<rfloor>" using assms(1) by simp
  have f1: "\<lfloor>x\<rfloor> \<le> 10000" using assms(2) by (simp add: floor_le_iff)
  show "0 \<le> round_half_even x"
    unfolding round_half_even_def Let_def using f0 by auto
  show "round_half_even x \<le> 10000"
  proof (cases "x = 10000")
    case True
    then show ?thesis by (simp add: round_half_even_def)
  next
    case False
    with assms(2) have "x < 10000" by simp
    then have "\<lfloor>x\<rfloor> < 10000" by (simp add: floor_less_iff)
    then show ?thesis
      unfolding round_half_even_def Let_def by auto
  qed
qed

lemma round_half_even_of_int: "round_half_even (real_of_int n) = n"
  by (simp add: round_half_even_def)

lemma round_half_even_le:
  assumes "x \<le> real_of_int N"
  shows "round_half_even x \<le> N"
proof (cases "x = real_of_int N")
  case True
  then show ?thesis by (simp add: round_half_even_of_int)
next
  case False
  with assms have "x < real_of_int N" by simp
  then have "\<lfloor>x\<rfloor> < N" by (simp add: floor_less_iff)
  then show ?thesis
    unfolding round_half_even_def Let_def by auto
qed

lemma round_half_even_ge:
  assumes "real_of_int N \<le> x"
  shows "N \<le> round_half_even x"
proof -
  have "N \<le> \<lfloor>x\<rfloor>" using assms by (simp add: le_floor_iff)
  then show ?thesis
    unfolding round_half_even_def Let_def by auto
qed

lemma binary64_below_one:
  assumes "0 < p" and "p < 1"
  shows "\<exists>s\<ge>52. binary64 p = real_of_int (round_half_even (p * 2 ^ s)) / 2 ^ s"
proof -
  define j where "j = bit_length (nat \<lfloor>1 / p\<rfloor>) - 1"
  define s where "s = 52 + (if p * 2 ^ j = 1 then j else j + 1)"
  have "binary64 p = real_of_int (round_half_even (p * 2 ^ s)) / 2 ^ s"
    using assms by (simp add: binary64_def Let_def s_def j_def)
  moreover have "52 \<le> s" by (simp add: s_def)
  ultimately show ?thesis by blast
qed

lemma binary64_unit:
  assumes "0 \<le> p" and "p \<le> 1"
  shows "0 \<le> binary64 p \<and> binary64 p \<le> 1 \<and> \<bar>binary64 p - p\<bar> \<le> 1 / 2 ^ 53"
proof -
  consider (zero) "p = 0" | (one) "p = 1" | (between) "0 < p" "p < 1"
    using assms by fastforce
  then show ?thesis
  proof cases
    case zero
    then show ?thesis by (simp add: binary64_def)
  next
    case one
    have "round_half_even (2 ^ 52) = 2 ^ 52"
      using round_half_even_of_int [of "2 ^ 52"] by simp
    then show ?thesis using one by (simp add: binary64_def Let_def)
  next
    case between
    then obtain s where s: "52 \<le> s"
      and b: "binary64 p = real_of_int (round_half_even (p * 2 ^ s)) / 2 ^ s"
      using binary64_below_one by blast
    let ?m = "round_half_even (p * 2 ^ s)"
    have pow: "(0::real) < 2 ^ s" by simp
    have "real_of_int 0 \<le> p * 2 ^ s" using between by simp
    then have m0: "0 \<le> ?m" by (rule round_half_even_ge)
    have "p * 2 ^ s \<le> real_of_int (2 ^ s)" using between by simp
    then have m1: "?m \<le> 2 ^ s" by (rule round_half_even_le)
    have lo: "0 \<le> binary64 p" unfolding b using m0 by simp
    have "real_of_int ?m \<le> 2 ^ s" using m1 by (metis of_int_le_iff of_int_numeral of_int_power)
    then have hi: "binary64 p \<le> 1" unfolding b by (simp add: divide_le_eq)
    have "\<bar>real_of_int ?m - p * 2 ^ s\<bar> \<le> 1 / 2"
      by (rule round_half_even_bounds)
    then have "\<bar>real_of_int ?m / 2 ^ s - p\<bar> \<le> 1 / 2 / 2 ^ s"
      using pow by (simp add: abs_le_iff field_simps)
    also have "\<dots> = 1 / 2 ^ Suc s" by simp
    also have "\<dots> \<le> 1 / 2 ^ 53"
    proof -
      have "(2::real) ^ 53 \<le> 2 ^ Suc s"
        by (rule power_increasing) (use s in simp_all)
      then show ?thesis by (simp add: frac_le)
    qed
    finally have "\<bar>binary64 p - p\<bar> \<le> 1 / 2 ^ 53" unfolding b .
    with lo hi show ?thesis by blast
  qed
qed

lemma format_4f_unit:
  assumes "0 \<le> p" and "p \<le> 1"
  shows "\<exists>n\<le>10000. \<bar>real n / 10000 - p\<bar> \<le> 1 / 20000 \<and>
           format_4f p =
             [digit_char (n div 10000), CHR ''.'', digit_char (n div 1000 mod 10),
              digit_char (n div 100 mod 10), digit_char (n div 10 mod 10), digit_char (n mod 10)]"
proof -
  define n where "n = nat (round_half_even (\<bar>p\<bar> * 10000))"
  have x: "0 \<le> \<bar>p\<bar> * 10000" "\<bar>p\<bar> * 10000 \<le> 10000" using assms by simp_all
  note r = round_half_even_range [OF x]
  have n: "n \<le> 10000" using r by (simp add: n_def)
  have rn: "real n = real_of_int (round_half_even (\<bar>p\<bar> * 10000))"
    using r(1) by (simp add: n_def)
  have "\<bar>real n - p * 10000\<bar> \<le> 1 / 2"
    using round_half_even_bounds [of "\<bar>p\<bar> * 10000"] assms(1) by (simp add: rn)
  then have close: "\<bar>real n / 10000 - p\<bar> \<le> 1 / 20000"
    by (simp add: abs_le_iff field_simps)
  have d: "n div 10000 < 10" using n by simp
  have dec: "decimal (n div 10000) = [digit_char (n div 10000)]"
    by (subst decimal.simps) (simp only: d if_True)
  have "format_4f p =
      decimal (n div 10000) @ ''.'' @
      [digit_char (n div 1000 mod 10), digit_char (n div 100 mod 10),
       digit_char (n div 10 mod 10), digit_char (n mod 10)]"
    unfolding format_4f_def Let_def n_def using assms(1) by simp
  then have "format_4f p =
      [digit_char (n div 10000), CHR ''.'', digit_char (n div 1000 mod 10),
       digit_char (n div 100 mod 10), digit_char (n div 10 mod 10), digit_char (n mod 10)]"
    unfolding dec by simp
  with n close show ?thesis by blast
qed

text \<open>Two values of the format; the second is a tie, resolved to the even digit.\<close>

lemma digit_char_simps:
  "digit_char 0 = CHR ''0''" "digit_char 5 = CHR ''5''"
  by (simp_all add: digit_char_def)

lemma format_4f_half: "format_4f (1 / 2) = ''0.5000''"
  by (simp add: format_4f_def round_half_even_def digit_char_simps)

lemma format_4f_tie: "format_4f (1 / 32) = ''0.0312''"
  by (simp add: format_4f_def round_half_even_def digit_char_def)

text \<open>
  Floats of quotients that are not binary fractions. The exact values \<open>107/160\<close> and
  \<open>1/160\<close> are ties of the format; their floats lie below and above them.
\<close>

lemma binary64_half: "binary64 (1 / 2) = 1 / 2"
  by (simp add: binary64_def round_half_even_def Let_def)

lemma binary64_example: "binary64 (107 / 160) = 6023564501608038 / 2 ^ 53"
  by (simp add: binary64_def round_half_even_def Let_def)

lemma format_4f_binary64_below: "format_4f (binary64 (107 / 160)) = ''0.6687''"
  by (simp add: binary64_example format_4f_def round_half_even_def Let_def digit_char_def)

lemma format_4f_binary64_above: "format_4f (binary64 (1 / 160)) = ''0.0063''"
  by (simp add: binary64_def format_4f_def round_half_even_def Let_def digit_char_def)

section \<open>Properties of the script run\<close>

lemma p_value_display_eq:
  "p_value_display ds =
     (if ds = [] then Inr None
      else Inr (Some (format_4f (binary64 (real (extreme_count ds (6 / 100)) / real (length ds))))))"
  by (simp add: p_value_display_def p_value_estimate_eq)

lemma render_status_eq:
  "render_status s w =
     (if target_samples w = 0 then Inl ZeroDivisionError
      else Inr \<lparr>progress = min 1 (real (length (differences s)) / real_of_int (target_samples w)),
                samples_metric = (int (length (differences s)), target_samples w),
                p_value_metric =
                  (if differences s = [] then None
                   else Some (format_4f (binary64 (real (extreme_count (differences s) (6 / 100)) /
                                          real (length (differences s)))))),
                chart_values = differences s,
                chart_observed = 6 / 100,
                chart_shaded = show_p_value w\<rparr>)"
  by (simp add: render_status_def progress_value_def true_div_def p_value_display_eq)

lemma store_main:
  "store (main st w g) =
     persist
       (if running (handle_controls (init_session st) w) \<and>
           int (length (differences (handle_controls (init_session st) w))) < target_samples w
        then (case fst (generate_sample g) of
                Inl e \<Rightarrow> handle_controls (init_session st) w
              | Inr v \<Rightarrow> (handle_controls (init_session st) w)
                    \<lparr>differences := differences (handle_controls (init_session st) w) @ [v]\<rparr>)
        else handle_controls (init_session st) w)"
  by (cases "generate_sample g")
     (auto simp: main_def Let_def render_status_eq auto_update_def split: sum.splits)

lemma valid_widgets_positive: "valid_widgets w \<Longrightarrow> 0 < target_samples w"
  by (auto simp: valid_widgets_def target_options_def)


lemma reset_eq: "reset s = \<lparr>differences = [], running = False\<rparr>"
  by (simp add: reset_def clear_differences_def clear_running_def)

lemma extreme_count_append:
  "extreme_count (xs @ ys) observed = extreme_count xs observed + extreme_count ys observed"
  by (simp add: extreme_count_def)

lemma extreme_count_replicate:
  "extreme_count (replicate n v) observed = (if \<bar>v\<bar> \<ge> \<bar>observed\<bar> then n else 0)"
  by (simp add: extreme_count_def)

text \<open>
  Claim C7. The estimator by itself raises \<^verbatim>\<open>ZeroDivisionError\<close> on an empty sequence.
  The script evaluates it only behind the test \<^verbatim>\<open>current_samples > 0\<close>: with no samples
  the status has no "P-value" metric and nothing is divided, and with samples the metric
  is the float of the estimate for the observed value 0.06 under \<^verbatim>\<open>:.4f\<close>. That float
  lies in the unit interval within \<open>2 ^ -53\<close> of the estimate, and its text is one digit,
  a point and the four digits of the multiple of \<open>1/10000\<close> nearest to the float.
\<close>

theorem p_value_shown_only_with_samples:
  "p_value_estimate [] observed = Inl ZeroDivisionError \<and>
   (\<forall>pg. render_status s w = Inr pg \<longrightarrow> p_value_display (differences s) = Inr (p_value_metric pg)) \<and>
   (differences s = [] \<longrightarrow> p_value_display (differences s) = Inr None) \<and>
   (differences s \<noteq> [] \<longrightarrow>
      (\<exists>p n. p_value_estimate (differences s) (6 / 100) = Inr p \<and>
         p_value_display (differences s) = Inr (Some (format_4f (binary64 p))) \<and>
         0 \<le> binary64 p \<and> binary64 p \<le> 1 \<and> \<bar>binary64 p - p\<bar> \<le> 1 / 2 ^ 53 \<and>
         n \<le> 10000 \<and> \<bar>real n / 10000 - binary64 p\<bar> \<le> 1 / 20000 \<and>
         format_4f (binary64 p) =
           [digit_char (n div 10000), CHR ''.'', digit_char (n div 1000 mod 10),
            digit_char (n div 100 mod 10), digit_char (n div 10 mod 10), digit_char (n mod 10)]))"
proof (intro conjI allI impI)
  show "p_value_estimate [] observed = Inl ZeroDivisionError"
    by (simp add: p_value_estimate_eq)
next
  fix pg assume "render_status s w = Inr pg"
  then show "p_value_display (differences s) = Inr (p_value_metric pg)"
    by (auto simp: render_status_eq p_value_display_eq split: if_splits)
next
  assume "differences s = []"
  then show "p_value_display (differences s) = Inr None"
    by (simp add: p_value_display_eq)
next
  assume ne: "differences s \<noteq> []"
  let ?p = "real (extreme_count (differences s) (6 / 100)) / real (length (differences s))"
  have est: "p_value_estimate (differences s) (6 / 100) = Inr ?p"
    using ne by (simp add: p_value_estimate_eq)
  have disp: "p_value_display (differences s) = Inr (Some (format_4f (binary64 ?p)))"
    using ne by (simp add: p_value_display_eq)
  have "real (extreme_count (differences s) (6 / 100)) \<le> real (length (differences s))"
    using extreme_count_le [of "differences s" "6 / 100"] by simp
  moreover have "0 < real (length (differences s))" using ne by simp
  ultimately have p1: "?p \<le> 1" by (simp add: divide_le_eq)
  have p0: "0 \<le> ?p" by simp
  have float: "0 \<le> binary64 ?p \<and> binary64 ?p \<le> 1 \<and> \<bar>binary64 ?p - ?p\<bar> \<le> 1 / 2 ^ 53"
    using p0 p1 by (rule binary64_unit)
  then obtain n where "n \<le> 10000" "\<bar>real n / 10000 - binary64 ?p\<bar> \<le> 1 / 20000"
    "format_4f (binary64 ?p) =
           [digit_char (n div 10000), CHR ''.'', digit_char (n div 1000 mod 10),
            digit_char (n div 100 mod 10), digit_char (n div 10 mod 10), digit_char (n mod 10)]"
    using format_4f_unit [of "binary64 ?p"] by blast
  with est disp float show "\<exists>p n. p_value_estimate (differences s) (6 / 100) = Inr p \<and>
         p_value_display (differences s) = Inr (Some (format_4f (binary64 p))) \<and>
         0 \<le> binary64 p \<and> binary64 p \<le> 1 \<and> \<bar>binary64 p - p\<bar> \<le> 1 / 2 ^ 53 \<and>
         n \<le> 10000 \<and> \<bar>real n / 10000 - binary64 p\<bar> \<le> 1 / 20000 \<and>
         format_4f (binary64 p) =
           [digit_char (n div 10000), CHR ''.'', digit_char (n div 1000 mod 10),
            digit_char (n div 100 mod 10), digit_char (n div 10 mod 10), digit_char (n mod 10)]"
    by blast
qed

theorem p_value_shown_only_with_samples_witness:
  "p_value_display (differences \<lparr>differences = example_values, running = True\<rparr>) =
     Inr (Some ''0.5000'') \<and>
   p_value_estimate (differences \<lparr>differences = tie_values, running = True\<rparr>) (6 / 100) =
     Inr (107 / 160) \<and>
   p_value_display (differences \<lparr>differences = tie_values, running = True\<rparr>) =
     Inr (Some ''0.6687'') \<and>
   p_value_display (differences \<lparr>differences = [], running = True\<rparr>) = Inr None"
  using p_value_shown_only_with_samples
          [of 0 "\<lparr>differences = example_values, running = True\<rparr>" "click False False 100"]
        p_value_shown_only_with_samples
          [of 0 "\<lparr>differences = tie_values, running = True\<rparr>" "click False False 500"]
        p_value_shown_only_with_samples
          [of 0 "\<lparr>differences = [], running = True\<rparr>" "click False False 100"]
  by (simp add: p_value_display_eq p_value_estimate_eq example_values_def tie_values_def
        extreme_count_def binary64_half format_4f_half format_4f_binary64_below)

text \<open>The trace ends with the store that \<open>main\<close> returns.\<close>

text \<open>One extreme value among 160: the exact quotient is a tie, its float lies above.\<close>

lemma p_value_display_one_of_160:
  "p_value_display ([1 / 2] @ replicate 159 0) = Inr (Some ''0.0063'')"
proof -
  have "extreme_count ([1 / 2] @ replicate 159 0) (6 / 100) = 1"
    unfolding extreme_count_append extreme_count_replicate by (simp add: extreme_count_def)
  then show ?thesis
    by (simp add: p_value_display_eq format_4f_binary64_above del: append.simps)
qed

lemma persist_init_session: "persist (init_session st) = init_running (init_differences st)"
  by (cases st) (auto simp: persist_def init_session_def init_running_def init_differences_def
        split: option.splits)









lemma handle_controls_length:
  "length (differences (handle_controls (init_session st) w)) \<le> current_count st"
  by (simp add: handle_controls_def reset_def clear_differences_def clear_running_def current_count_def Let_def)

lemma current_count_persist: "current_count (persist s) = length (differences s)"
  by (simp add: current_count_def persist_def init_session_def)

lemma tick_bounded:
  assumes "int (current_count st) \<le> target_samples w"
  shows "int (current_count (store (main st w g))) \<le> target_samples w"
  using assms handle_controls_length [of st w]
  by (auto simp: store_main current_count_persist split: sum.splits)

lemma run_ticks_bounded:
  assumes "int (current_count st) \<le> T" and "\<forall>t\<in>set ticks. target_samples (fst t) = T"
  shows "int (current_count (run_ticks st ticks)) \<le> T"
  using assms
proof (induction ticks arbitrary: st)
  case Nil
  then show ?case by simp
next
  case (Cons t ticks)
  obtain w g where t: "t = (w, g)" by (cases t)
  from Cons.prems(2) t have T: "target_samples w = T" by simp
  from Cons.prems(1) have "int (current_count (store (main st w g))) \<le> T"
    using tick_bounded [of st w g] T by simp
  moreover from Cons.prems(2) have "\<forall>t\<in>set ticks. target_samples (fst t) = T" by simp
  ultimately have "int (current_count (run_ticks (store (main st w g)) ticks)) \<le> T"
    by (rule Cons.IH)
  then show ?case by (simp add: t)
qed

lemma current_count_empty: "current_count empty_store = 0"
  by (simp add: current_count_def empty_store_def init_session_def)

text \<open>
  Claim C9. A run appends at most one value, the one \<^verbatim>\<open>generate_sample\<close> returned,
  and it appends only if the flag is set and the count is below the target after the
  controls of that run. Hence in every session whose runs all select the same target
  \<open>T\<close>, starting from the empty store, the count never exceeds \<open>T\<close>.
\<close>

theorem run_loop_bounded:
  "stored_differences (store (main st w g)) =
     Some (if running (handle_controls (init_session st) w) \<and>
              int (length (differences (handle_controls (init_session st) w))) < target_samples w
           then (case fst (generate_sample g) of
                   Inl e \<Rightarrow> differences (handle_controls (init_session st) w)
                 | Inr v \<Rightarrow> differences (handle_controls (init_session st) w) @ [v])
           else differences (handle_controls (init_session st) w)) \<and>
   (0 \<le> T \<and> (\<forall>t\<in>set ticks. target_samples (fst t) = T) \<longrightarrow>
      int (current_count (run_ticks empty_store ticks)) \<le> T)"
proof (intro conjI impI)
  show "stored_differences (store (main st w g)) =
     Some (if running (handle_controls (init_session st) w) \<and>
              int (length (differences (handle_controls (init_session st) w))) < target_samples w
           then (case fst (generate_sample g) of
                   Inl e \<Rightarrow> differences (handle_controls (init_session st) w)
                 | Inr v \<Rightarrow> differences (handle_controls (init_session st) w) @ [v])
           else differences (handle_controls (init_session st) w))"
    by (simp add: store_main persist_def split: sum.splits)
next
  assume a: "0 \<le> T \<and> (\<forall>t\<in>set ticks. target_samples (fst t) = T)"
  then have "int (current_count empty_store) \<le> T" by (simp add: current_count_empty)
  then show "int (current_count (run_ticks empty_store ticks)) \<le> T"
    using a by (simp add: run_ticks_bounded)
qed

theorem run_loop_bounded_witness:
  "stored_differences (store (main empty_store (click True False 2) (block_rng 28 22 2))) = Some [6 / 100] \<and>
   run_ticks empty_store
     [(click True False 2, block_rng 28 22 2), (click False False 2, block_rng 28 22 2),
      (click False False 2, block_rng 28 22 2), (click False False 2, block_rng 28 22 2)] =
     \<lparr>stored_differences = Some [6 / 100, 6 / 100], stored_running = Some True\<rparr> \<and>
   int (current_count (run_ticks empty_store
     [(click True False 2, block_rng 28 22 2), (click False False 2, block_rng 28 22 2),
      (click False False 2, block_rng 28 22 2), (click False False 2, block_rng 28 22 2)])) \<le> 2"
  using run_loop_bounded [of empty_store "click True False 2" "block_rng 28 22 2" 2
     "[(click True False 2, block_rng 28 22 2), (click False False 2, block_rng 28 22 2),
      (click False False 2, block_rng 28 22 2), (click False False 2, block_rng 28 22 2)]"]
  by (simp add: store_main generate_sample_block_example handle_controls_def init_session_def empty_store_def click_def
        persist_def current_count_def)

text \<open>
  Claim C10. With a positive target the run shows the progress value
  \<^verbatim>\<open>min(1.0, current_samples / target_samples)\<close>, which lies between 0 and 1 also
  when the count exceeds the target.
\<close>

theorem progress_clamped:
  assumes "0 < target_samples w"
  shows "\<exists>pg. shown (main st w g) = Some pg \<and>
           progress pg =
             min 1 (real (length (differences (handle_controls (init_session st) w))) /
                    real_of_int (target_samples w)) \<and>
           0 \<le> progress pg \<and> progress pg \<le> 1"
proof -
  let ?s = "handle_controls (init_session st) w"
  let ?pg = "\<lparr>progress = min 1 (real (length (differences ?s)) / real_of_int (target_samples w)),
                samples_metric = (int (length (differences ?s)), target_samples w),
                p_value_metric =
                  (if differences ?s = [] then None
                   else Some (format_4f (binary64 (real (extreme_count (differences ?s) (6 / 100)) /
                                          real (length (differences ?s)))))),
                chart_values = differences ?s,
                chart_observed = 6 / 100,
                chart_shaded = show_p_value w\<rparr>"
  have rs: "render_status ?s w = Inr ?pg"
    using assms by (simp add: render_status_eq)
  have "shown (main st w g) = Some ?pg"
    unfolding main_def Let_def rs
    by (cases "generate_sample g") (auto simp: auto_update_def split: sum.splits)
  moreover have "0 \<le> progress ?pg" using assms by simp
  moreover have "progress ?pg \<le> 1" by simp
  ultimately show ?thesis by simp
qed

theorem progress_clamped_witness:
  "0 < target_samples (click False False 100) \<and>
   (\<exists>pg. shown (main \<lparr>stored_differences = Some (replicate 101 0), stored_running = Some False\<rparr>
                   (click False False 100) (block_rng 28 22 2)) = Some pg \<and>
         progress pg = 1)"
proof -
  have "valid_widgets (click False False 100)"
    by (simp add: valid_widgets_def target_options_def click_def)
  then have t: "0 < target_samples (click False False 100)"
    by (rule valid_widgets_positive)
  show ?thesis
    using t progress_clamped [OF t,
        of "\<lparr>stored_differences = Some (replicate 101 0), stored_running = Some False\<rparr>"
           "block_rng 28 22 2"]
    by (auto simp: handle_controls_def init_session_def click_def)
qed

end
